theory Spec2Isabelle
  imports Complex_Main
begin

section \<open>The rule expander of the Amaal calendar (src/lib/expandAmaalEvents.ts)\<close>

text \<open>
  The development embeds \<^verbatim>\<open>expandAmaalEvents\<close> and its helpers. Conventions:
  \<^item> TypeScript \<^verbatim>\<open>number\<close> fields that hold day counts are \<open>int\<close>; \<^verbatim>\<open>number | null\<close> is
    \<open>int option\<close> (fractional day numbers are outside the model);
  \<^item> \<^verbatim>\<open>Record<string, MonthConfig>\<close> is a map \<open>string \<rightharpoonup> MonthConfig\<close> of the object's own
    properties; reading a key finds the own property or else what every object inherits from
    \<^verbatim>\<open>Object.prototype\<close>;
  \<^item> a Luxon \<^verbatim>\<open>DateTime\<close> is either invalid or a local civil timestamp: a day number
    (days since 1970-01-01) and a millisecond of that day (0 to 86399999);
  \<^item> a time zone is the function giving its UTC offset in minutes at a local timestamp; zones
    in which some civil day does not start at 00:00 are outside the model;
  \<^item> a JavaScript \<^verbatim>\<open>Date\<close> is an instant, in milliseconds since the epoch, or invalid;
  \<^item> the adhan prayer-time calculation, in the process that runs the expander, is a parameter
    of the expander: it is given the instant the source gives it;
  \<^item> a \<^verbatim>\<open>for\<close> loop over days that pushes one event per round is the \<open>map\<close> of that event
    over the list of days \<open>[first..last]\<close>, which is empty when \<open>last < first\<close>; a
    \<^verbatim>\<open>continue\<close> inside it is a \<open>filter\<close> of that list;
  \<^item> the record fields \<^verbatim>\<open>id\<close>, \<^verbatim>\<open>text\<close>, \<^verbatim>\<open>length\<close> are renamed \<open>item_id\<close>/\<open>event_id\<close>,
    \<open>item_text\<close>, \<open>month_length\<close>; the event's \<^verbatim>\<open>sections\<close> is \<open>event_sections\<close>.
\<close>

subsection \<open>Data model\<close>

datatype Period = Day | Night | DayAndNight

datatype RuleKind =
    Specific | Range | MonthAll | MonthAnyTime | Weekday | WeekdayMulti | NightGeneral | Unspecified

text \<open>\<^verbatim>\<open>StandardItem\<close>; the type parameter stands for the opaque \<^verbatim>\<open>sections\<close> payload.\<close>

record 's StandardItem =
  item_id :: string
  hijri_month :: string
  label :: string
  period :: Period
  rule_kind :: RuleKind
  start_day :: "int option"
  end_day :: "int option"
  weekdays :: "string list option"
  item_text :: string
  sections :: "'s option"

record MonthConfig =
  startDateISO :: string
  month_length :: int

record Coords =
  lat :: real
  lon :: real

text \<open>\<^verbatim>\<open>ExpandedEvent\<close>; \<open>None\<close> in an ISO field is the \<^verbatim>\<open>null\<close> that \<^verbatim>\<open>toISO()\<close> returns for an
  invalid \<^verbatim>\<open>DateTime\<close>.\<close>

record 's ExpandedEvent =
  event_id :: string
  title :: string
  startISO :: "string option"
  endISO :: "string option"
  allDay :: bool
  description :: string
  event_sections :: "'s option"
  color :: string

subsection \<open>Numbers as JavaScript prints and divides them\<close>

definition digit :: "int \<Rightarrow> char" where
  "digit n = ''0123456789'' ! nat (n mod 10)"

text \<open>The decimal digits of a number that is not negative.\<close>

function show_nat :: "int \<Rightarrow> string" where
  "show_nat n = (if n < 10 then [digit n] else show_nat (n div 10) @ [digit n])"
  by pat_completeness auto
termination
  by (relation "measure nat") auto

declare show_nat.simps [simp del]

definition show_int :: "int \<Rightarrow> string" where
  "show_int i = (if i < 0 then CHR ''-'' # show_nat (- i) else show_nat i)"

definition padStart :: "nat \<Rightarrow> string \<Rightarrow> string" where
  "padStart w s = replicate (w - length s) CHR ''0'' @ s"

text \<open>The remainder operator \<^verbatim>\<open>%\<close>: the result has the sign of the dividend.\<close>

definition js_rem :: "int \<Rightarrow> int \<Rightarrow> int" where
  "js_rem a b = sgn a * (\<bar>a\<bar> mod \<bar>b\<bar>)"

text \<open>Array indexing: \<^verbatim>\<open>undefined\<close> (here \<open>None\<close>) outside the array.\<close>

definition js_index :: "'a list \<Rightarrow> int \<Rightarrow> 'a option" where
  "js_index xs i = (if 0 \<le> i \<and> i < int (length xs) then Some (xs ! nat i) else None)"

subsection \<open>The Luxon operations the expander calls\<close>

datatype DateTime = Invalid | DT (localDay: int) (localMs: int)

type_synonym timezone = "int \<Rightarrow> int \<Rightarrow> int"

definition isLeap :: "int \<Rightarrow> bool" where
  "isLeap y = (y mod 4 = 0 \<and> (y mod 100 \<noteq> 0 \<or> y mod 400 = 0))"

definition daysInMonth :: "int \<Rightarrow> int \<Rightarrow> int" where
  "daysInMonth y m =
     (if m = 2 then (if isLeap y then 29 else 28)
      else if m = 4 \<or> m = 6 \<or> m = 9 \<or> m = 11 then 30 else 31)"

text \<open>Day number of a proleptic Gregorian date, and back.\<close>

definition daysFromCivil :: "int \<Rightarrow> int \<Rightarrow> int \<Rightarrow> int" where
  "daysFromCivil y m d =
     (let y' = (if m \<le> 2 then y - 1 else y);
          era = y' div 400;
          yoe = y' - era * 400;
          mp = (m + 9) mod 12;
          doy = (153 * mp + 2) div 5 + d - 1;
          doe = yoe * 365 + yoe div 4 - yoe div 100 + doy
      in era * 146097 + doe - 719468)"

definition civilFromDays :: "int \<Rightarrow> int \<times> int \<times> int" where
  "civilFromDays z =
     (let z' = z + 719468;
          era = z' div 146097;
          doe = z' - era * 146097;
          yoe = (doe - doe div 1460 + doe div 36524 - doe div 146096) div 365;
          doy = doe - (365 * yoe + yoe div 4 - yoe div 100);
          mp = (5 * doy + 2) div 153;
          d = doy - (153 * mp + 2) div 5 + 1;
          m = (if mp < 10 then mp + 3 else mp - 9);
          y = yoe + era * 400
      in (if m \<le> 2 then y + 1 else y, m, d))"

definition digitVal :: "char \<Rightarrow> int option" where
  "digitVal c = map_of
     [(CHR ''0'', 0), (CHR ''1'', 1), (CHR ''2'', 2), (CHR ''3'', 3), (CHR ''4'', 4),
      (CHR ''5'', 5), (CHR ''6'', 6), (CHR ''7'', 7), (CHR ''8'', 8), (CHR ''9'', 9)] c"

fun parseDigits :: "int \<Rightarrow> string \<Rightarrow> int option" where
  "parseDigits acc [] = Some acc"
| "parseDigits acc (c # cs) =
     (case digitVal c of None \<Rightarrow> None | Some v \<Rightarrow> parseDigits (10 * acc + v) cs)"

text \<open>
  \<^verbatim>\<open>DateTime.fromISO(s, { zone: tz })\<close> for the calendar-date form \<^verbatim>\<open>YYYY-MM-DD\<close>, which is what
  the page's date inputs store; the empty string a fresh month configuration holds, and every
  other string, is invalid here (Luxon reads further ISO 8601 forms, which the model leaves
  out). The zone is taken to be a valid one.
\<close>

fun fromISO :: "string \<Rightarrow> timezone \<Rightarrow> DateTime" where
  "fromISO [y1, y2, y3, y4, s1, m1, m2, s2, d1, d2] tz =
     (if s1 = CHR ''-'' \<and> s2 = CHR ''-'' then
        (case (parseDigits 0 [y1, y2, y3, y4], parseDigits 0 [m1, m2], parseDigits 0 [d1, d2]) of
           (Some y, Some m, Some d) \<Rightarrow>
             (if 1 \<le> m \<and> m \<le> 12 \<and> 1 \<le> d \<and> d \<le> daysInMonth y m
              then DT (daysFromCivil y m d) 0 else Invalid)
         | _ \<Rightarrow> Invalid)
      else Invalid)"
| "fromISO _ tz = Invalid"

declare fromISO.simps [simp del]

definition startOfDay :: "DateTime \<Rightarrow> DateTime" where
  "startOfDay dt = (case dt of Invalid \<Rightarrow> Invalid | DT d ms \<Rightarrow> DT d 0)"

definition endOfDay :: "DateTime \<Rightarrow> DateTime" where
  "endOfDay dt = (case dt of Invalid \<Rightarrow> Invalid | DT d ms \<Rightarrow> DT d 86399999)"

definition plusDays :: "DateTime \<Rightarrow> int \<Rightarrow> DateTime" where
  "plusDays dt n = (case dt of Invalid \<Rightarrow> Invalid | DT d ms \<Rightarrow> DT (d + n) ms)"

definition minusDays :: "DateTime \<Rightarrow> int \<Rightarrow> DateTime" where
  "minusDays dt n = (case dt of Invalid \<Rightarrow> Invalid | DT d ms \<Rightarrow> DT (d - n) ms)"

text \<open>\<^verbatim>\<open>.weekday\<close>: 1 is Monday, 7 is Sunday; \<open>None\<close> is the \<^verbatim>\<open>NaN\<close> of an invalid
  \<^verbatim>\<open>DateTime\<close>. Day number 0 (1970-01-01) is a Thursday.\<close>

definition weekday :: "DateTime \<Rightarrow> int option" where
  "weekday dt = (case dt of Invalid \<Rightarrow> None | DT d ms \<Rightarrow> Some ((d + 3) mod 7 + 1))"

definition showYear :: "int \<Rightarrow> string" where
  "showYear y =
     (if 0 \<le> y \<and> y \<le> 9999 then padStart 4 (show_nat y)
      else (if y < 0 then CHR ''-'' else CHR ''+'') # padStart 6 (show_nat \<bar>y\<bar>))"

definition showOffset :: "int \<Rightarrow> string" where
  "showOffset off =
     (if off < 0 then CHR ''-'' else CHR ''+'')
       # padStart 2 (show_nat (\<bar>off\<bar> div 60)) @ CHR '':''
       # padStart 2 (show_nat (\<bar>off\<bar> mod 60))"

text \<open>\<^verbatim>\<open>.toISO()\<close>: \<^verbatim>\<open>null\<close> for an invalid \<^verbatim>\<open>DateTime\<close>, otherwise
  \<^verbatim>\<open>YYYY-MM-DDTHH:mm:ss.SSS+HH:MM\<close>.\<close>

definition toISO :: "timezone \<Rightarrow> DateTime \<Rightarrow> string option" where
  "toISO tz dt =
     (case dt of
        Invalid \<Rightarrow> None
      | DT d ms \<Rightarrow>
          (case civilFromDays d of (y, m, dd) \<Rightarrow>
             Some (showYear y @ CHR ''-'' # padStart 2 (show_nat m) @ CHR ''-''
                   # padStart 2 (show_nat dd) @ CHR ''T''
                   # padStart 2 (show_nat (ms div 3600000)) @ CHR '':''
                   # padStart 2 (show_nat (ms div 60000 mod 60)) @ CHR '':''
                   # padStart 2 (show_nat (ms div 1000 mod 60)) @ CHR ''.''
                   # padStart 3 (show_nat (ms mod 1000)) @ showOffset (tz d ms))))"

subsection \<open>The helpers of the source file\<close>

definition isSpace :: "char \<Rightarrow> bool" where
  "isSpace c = (c \<in> set [CHR '' '', CHR 0x09, CHR 0x0A, CHR 0x0B, CHR 0x0C, CHR 0x0D])"

definition trim :: "string \<Rightarrow> string" where
  "trim s = rev (dropWhile isSpace (rev (dropWhile isSpace s)))"

definition toLowerCase :: "string \<Rightarrow> string" where
  "toLowerCase s =
     map (\<lambda>c. case map_of (zip ''ABCDEFGHIJKLMNOPQRSTUVWXYZ'' ''abcdefghijklmnopqrstuvwxyz'') c of
                Some l \<Rightarrow> l | None \<Rightarrow> c) s"

text \<open>\<^verbatim>\<open>.replace(/\s+/g, " ")\<close>: every maximal run of white space becomes one space.\<close>

function collapseSpaces :: "string \<Rightarrow> string" where
  "collapseSpaces [] = []"
| "collapseSpaces (c # cs) =
     (if isSpace c then CHR '' '' # collapseSpaces (dropWhile isSpace cs)
      else c # collapseSpaces cs)"
  by pat_completeness auto
termination
  by (relation "measure length") (auto simp: less_Suc_eq_le length_dropWhile_le)

text \<open>\<^verbatim>\<open>normMonth\<close>. The character class of its first \<^verbatim>\<open>replace\<close> holds the apostrophe only,
  which it replaces by itself. White space and letter case are those of ASCII.\<close>

definition normMonth :: "string \<Rightarrow> string" where
  "normMonth s =
     collapseSpaces (map (\<lambda>c. if c = CHR 0x27 then CHR 0x27 else c) (toLowerCase (trim s)))"

definition hijriDayToGregorian :: "MonthConfig \<Rightarrow> int \<Rightarrow> timezone \<Rightarrow> DateTime" where
  "hijriDayToGregorian cfg hijriDay tz =
     plusDays (startOfDay (fromISO (startDateISO cfg) tz)) (hijriDay - 1)"

text \<open>The names of the properties every object inherits from \<^verbatim>\<open>Object.prototype\<close>.\<close>

definition objectPrototypeKeys :: "string list" where
  "objectPrototypeKeys =
     [''constructor'', ''hasOwnProperty'', ''isPrototypeOf'', ''propertyIsEnumerable'',
      ''toLocaleString'', ''toString'', ''valueOf'', ''__defineGetter__'', ''__defineSetter__'',
      ''__lookupGetter__'', ''__lookupSetter__'', ''__proto__'']"

text \<open>What \<^verbatim>\<open>weekdayToLuxon\<close> returns: a number, or the object found under an inherited key.\<close>

datatype JsValue = JsNumber int | JsObject string

text \<open>\<^verbatim>\<open>weekdayToLuxon\<close>: \<^verbatim>\<open>map[weekday] ?? 0\<close>. The object literal \<^verbatim>\<open>map\<close> has the seven codes as own
  properties; under an inherited key the lookup finds an object, which is not nullish, so
  \<^verbatim>\<open>??\<close> keeps it; under any other key it finds \<^verbatim>\<open>undefined\<close>, and the result is 0.\<close>

definition weekdayToLuxon :: "string \<Rightarrow> JsValue" where
  "weekdayToLuxon wd =
     (case map_of [(''MON'', 1), (''TUE'', 2), (''WED'', 3), (''THU'', 4), (''FRI'', 5),
                   (''SAT'', 6), (''SUN'', 7)] wd of
        Some n \<Rightarrow> JsNumber n
      | None \<Rightarrow> if wd \<in> set objectPrototypeKeys then JsObject wd else JsNumber 0)"

text \<open>\<^verbatim>\<open>.toJSDate()\<close>: the instant of a \<^verbatim>\<open>DateTime\<close>, in milliseconds since the epoch; \<open>None\<close> is
  the invalid \<^verbatim>\<open>Date\<close> of an invalid \<^verbatim>\<open>DateTime\<close>.\<close>

definition toJSDate :: "timezone \<Rightarrow> DateTime \<Rightarrow> int option" where
  "toJSDate tz dt =
     (case dt of Invalid \<Rightarrow> None | DT d ms \<Rightarrow> Some (d * 86400000 + ms - tz d ms * 60000))"

text \<open>
  The adhan library in the running process, as \<^verbatim>\<open>getPrayerTimesAccurate\<close> uses it: given the
  zone, the coordinates and a \<^verbatim>\<open>Date\<close>, it stands for
  \<^verbatim>\<open>new PrayerTimes(c, dateJS, CalculationMethod.Tehran())\<close> and for its \<^verbatim>\<open>fajr\<close> and \<^verbatim>\<open>maghrib\<close>
  read back by \<^verbatim>\<open>DateTime.fromJSDate(...).setZone(tz)\<close>. The library takes the civil date it
  computes for from the \<^verbatim>\<open>Date\<close> with \<^verbatim>\<open>getFullYear\<close>, \<^verbatim>\<open>getMonth\<close> and \<^verbatim>\<open>getDate\<close>, that is in the
  zone of the process, which is why the zone of the process is part of this parameter.
\<close>

type_synonym PrayerTimes = "timezone \<Rightarrow> Coords \<Rightarrow> int option \<Rightarrow> DateTime \<times> DateTime"

text \<open>\<^verbatim>\<open>getPrayerTimesAccurate\<close>: \<^verbatim>\<open>gregDate\<close> is in the zone \<^verbatim>\<open>tz\<close> already, so \<^verbatim>\<open>setZone(tz)\<close> leaves
  it as it is.\<close>

definition getPrayerTimesAccurate ::
    "PrayerTimes \<Rightarrow> DateTime \<Rightarrow> timezone \<Rightarrow> Coords \<Rightarrow> DateTime \<times> DateTime" where
  "getPrayerTimesAccurate adhan gregDate tz c =
     (let dateJS = toJSDate tz gregDate in adhan tz c dateJS)"

text \<open>\<^verbatim>\<open>getOrdinal\<close>: \<^verbatim>\<open>n + (s[(v - 20) % 10] || s[v] || s[0])\<close>.\<close>

definition getOrdinal :: "int \<Rightarrow> string" where
  "getOrdinal n =
     (let s = [''th'', ''st'', ''nd'', ''rd''];
          v = js_rem n 100
      in show_int n @
         (case js_index s (js_rem (v - 20) 10) of
            Some x \<Rightarrow> x
          | None \<Rightarrow> (case js_index s v of Some x \<Rightarrow> x | None \<Rightarrow> s ! 0)))"

text \<open>\<^verbatim>\<open>target.has(g.weekday)\<close>: a set has \<^verbatim>\<open>NaN\<close> (here \<open>None\<close>) as a member only when it was
  put there, and \<^verbatim>\<open>weekdayToLuxon\<close> never yields it.\<close>

definition setHas :: "JsValue set \<Rightarrow> int option \<Rightarrow> bool" where
  "setHas target w = (case w of None \<Rightarrow> False | Some x \<Rightarrow> JsNumber x \<in> target)"

text \<open>\<^verbatim>\<open>a || b\<close> on strings: the empty string is falsy.\<close>

definition orElse :: "string \<Rightarrow> string \<Rightarrow> string" where
  "orElse a b = (if a = [] then b else a)"

subsection \<open>The expander\<close>

text \<open>The events one iteration of the loop over \<^verbatim>\<open>amaal.items\<close> pushes, given the month
  configuration found for the item.\<close>

definition expandConfigured ::
    "PrayerTimes \<Rightarrow> timezone \<Rightarrow> Coords \<Rightarrow> MonthConfig \<Rightarrow> 's StandardItem \<Rightarrow> 's ExpandedEvent list" where
  "expandConfigured adhan tz c cfg item =
     (let monthLen = month_length cfg in
      if rule_kind item = MonthAll \<or> rule_kind item = MonthAnyTime then
        (let start = hijriDayToGregorian cfg 1 tz;
             endExclusive = plusDays (hijriDayToGregorian cfg monthLen tz) 1
         in [\<lparr>event_id = item_id item,
              title = orElse (label item) (hijri_month item),
              startISO = toISO tz start,
              endISO = toISO tz endExclusive,
              allDay = True,
              description = item_text item,
              event_sections = sections item,
              color = ''#8b5cf6''\<rparr>])
      else if rule_kind item = Weekday \<or> rule_kind item = WeekdayMulti then
        (let wds = (case weekdays item of None \<Rightarrow> [] | Some ws \<Rightarrow> ws);
             target = set (map weekdayToLuxon wds)
         in map (\<lambda>d.
                  let g = hijriDayToGregorian cfg d tz;
                      (fajr, maghrib) = getPrayerTimesAccurate adhan g tz c
                  in \<lparr>event_id = item_id item @ ''_d'' @ show_int d,
                      title = orElse (label item) (getOrdinal d @ '' Day''),
                      startISO = toISO tz fajr,
                      endISO = toISO tz maghrib,
                      allDay = False,
                      description = item_text item,
                      event_sections = sections item,
                      color = ''#059669''\<rparr>)
                (filter (\<lambda>d. setHas target (weekday (hijriDayToGregorian cfg d tz)))
                        [1..monthLen]))
      else
        (case start_day item of
           None \<Rightarrow> []
         | Some sd \<Rightarrow>
             if sd = 0 then []
             else
               (let startDay = max 1 (min sd monthLen);
                    endDay = (case end_day item of
                                None \<Rightarrow> monthLen
                              | Some ed \<Rightarrow> max startDay (min ed monthLen))
                in if period item = Night then
                     map (\<lambda>d.
                           let gDay = hijriDayToGregorian cfg d tz;
                               eveDay = minusDays gDay 1
                           in \<lparr>event_id = item_id item @ ''_night_'' @ show_int d,
                               title = orElse (label item) (getOrdinal d @ '' Night''),
                               startISO = toISO tz (startOfDay eveDay),
                               endISO = toISO tz (endOfDay eveDay),
                               allDay = True,
                               description = item_text item,
                               event_sections = sections item,
                               color = ''#2563eb''\<rparr>)
                         [startDay..endDay]
                   else if period item = Day then
                     map (\<lambda>d.
                           let gDay = hijriDayToGregorian cfg d tz;
                               (fajr, maghrib) = getPrayerTimesAccurate adhan gDay tz c
                           in \<lparr>event_id = item_id item @ ''_day_'' @ show_int d,
                               title = orElse (label item) (getOrdinal d @ '' Day''),
                               startISO = toISO tz fajr,
                               endISO = toISO tz maghrib,
                               allDay = False,
                               description = item_text item,
                               event_sections = sections item,
                               color = ''#059669''\<rparr>)
                         [startDay..endDay]
                   else
                     map (\<lambda>d.
                           let gDay = hijriDayToGregorian cfg d tz
                           in \<lparr>event_id = item_id item @ ''_allday_'' @ show_int d,
                               title = orElse (label item) (getOrdinal d @ '' Day''),
                               startISO = toISO tz (startOfDay gDay),
                               endISO = toISO tz (startOfDay (plusDays gDay 1)),
                               allDay = True,
                               description = item_text item,
                               event_sections = sections item,
                               color = ''#8b5cf6''\<rparr>)
                         [startDay..endDay])))"

text \<open>
  What \<^verbatim>\<open>monthConfigs[key]\<close> finds: the month configuration stored under the key; or else, under
  the name of an inherited property, a function of \<^verbatim>\<open>Object.prototype\<close> (\<^verbatim>\<open>constructor\<close> is the
  function \<^verbatim>\<open>Object\<close>), of which the expander reads the \<^verbatim>\<open>length\<close> (its number of parameters), or
  under \<^verbatim>\<open>__proto__\<close> the prototype object itself; or else \<^verbatim>\<open>undefined\<close> (here \<open>None\<close>).
\<close>

datatype Found = OwnConfig MonthConfig | InheritedFunction int | ObjectPrototype

definition inheritedFunctionLength :: "string \<rightharpoonup> int" where
  "inheritedFunctionLength =
     map_of [(''constructor'', 1), (''hasOwnProperty'', 1), (''isPrototypeOf'', 1),
             (''propertyIsEnumerable'', 1), (''toLocaleString'', 0), (''toString'', 0),
             (''valueOf'', 0), (''__defineGetter__'', 2), (''__defineSetter__'', 2),
             (''__lookupGetter__'', 1), (''__lookupSetter__'', 1)]"

definition lookupMonth :: "(string \<rightharpoonup> MonthConfig) \<Rightarrow> string \<Rightarrow> Found option" where
  "lookupMonth monthConfigs key =
     (case monthConfigs key of
        Some cfg \<Rightarrow> Some (OwnConfig cfg)
      | None \<Rightarrow>
          (case inheritedFunctionLength key of
             Some n \<Rightarrow> Some (InheritedFunction n)
           | None \<Rightarrow> if key = ''__proto__'' then Some ObjectPrototype else None))"

text \<open>
  The rounds of the loop when \<^verbatim>\<open>cfg\<close> is the prototype object: \<^verbatim>\<open>cfg.startDateISO\<close> and
  \<^verbatim>\<open>cfg.length\<close> are \<^verbatim>\<open>undefined\<close>. Every \<^verbatim>\<open>DateTime\<close> is invalid, and stays so under \<^verbatim>\<open>plus\<close>; the
  month-wide branch pushes its event; the loop of the weekday branch tests
  \<^verbatim>\<open>d <= undefined\<close> and those of the range code test \<^verbatim>\<open>NaN <= ...\<close>, which are false, so they
  push nothing.
\<close>

definition expandWithoutLength :: "timezone \<Rightarrow> 's StandardItem \<Rightarrow> 's ExpandedEvent list" where
  "expandWithoutLength tz item =
     (if rule_kind item = MonthAll \<or> rule_kind item = MonthAnyTime then
        [\<lparr>event_id = item_id item,
          title = orElse (label item) (hijri_month item),
          startISO = toISO tz Invalid,
          endISO = toISO tz Invalid,
          allDay = True,
          description = item_text item,
          event_sections = sections item,
          color = ''#8b5cf6''\<rparr>]
      else [])"

text \<open>
  One iteration, with the lookup of the month configuration and its \<^verbatim>\<open>continue\<close>. An inherited
  function has a \<^verbatim>\<open>length\<close> and no \<^verbatim>\<open>startDateISO\<close>; Luxon parses \<^verbatim>\<open>undefined\<close> no more than the
  empty string, so the loop body runs as for a configuration with the empty string as date.
\<close>

definition expandItem ::
    "PrayerTimes \<Rightarrow> (string \<rightharpoonup> MonthConfig) \<Rightarrow> timezone \<Rightarrow> Coords \<Rightarrow> 's StandardItem
       \<Rightarrow> 's ExpandedEvent list" where
  "expandItem adhan monthConfigs tz c item =
     (case lookupMonth monthConfigs (normMonth (hijri_month item)) of
        None \<Rightarrow> []
      | Some (OwnConfig cfg) \<Rightarrow> expandConfigured adhan tz c cfg item
      | Some (InheritedFunction n) \<Rightarrow>
          expandConfigured adhan tz c \<lparr>startDateISO = [], month_length = n\<rparr> item
      | Some ObjectPrototype \<Rightarrow> expandWithoutLength tz item)"

text \<open>The array \<^verbatim>\<open>events\<close> when the loop over the items has ended.\<close>

definition generatedEvents ::
    "PrayerTimes \<Rightarrow> (string \<rightharpoonup> MonthConfig) \<Rightarrow> timezone \<Rightarrow> Coords \<Rightarrow> 's StandardItem list
       \<Rightarrow> 's ExpandedEvent list" where
  "generatedEvents adhan monthConfigs tz c its =
     concat (map (expandItem adhan monthConfigs tz c) its)"

text \<open>The key of the duplicate filter; \<^verbatim>\<open>null\<close> prints as \<^verbatim>\<open>null\<close> in a template.\<close>

definition isoText :: "string option \<Rightarrow> string" where
  "isoText x = (case x of None \<Rightarrow> ''null'' | Some s \<Rightarrow> s)"

definition eventKey :: "'s ExpandedEvent \<Rightarrow> string" where
  "eventKey ev = title ev @ ''|'' @ isoText (startISO ev) @ ''|'' @ isoText (endISO ev)"

text \<open>\<^verbatim>\<open>events.filter\<close> with the set \<^verbatim>\<open>seen\<close> threaded through.\<close>

fun filterSeen :: "string set \<Rightarrow> 's ExpandedEvent list \<Rightarrow> 's ExpandedEvent list" where
  "filterSeen seen [] = []"
| "filterSeen seen (ev # evs) =
     (let key = eventKey ev
      in if key \<in> seen then filterSeen seen evs
         else ev # filterSeen (insert key seen) evs)"

definition expandAmaalEvents ::
    "PrayerTimes \<Rightarrow> 's StandardItem list \<Rightarrow> (string \<rightharpoonup> MonthConfig) \<Rightarrow> timezone \<Rightarrow> Coords
       \<Rightarrow> 's ExpandedEvent list" where
  "expandAmaalEvents adhan its monthConfigs tz c =
     filterSeen {} (generatedEvents adhan monthConfigs tz c its)"

subsection \<open>Notions the properties are stated with\<close>

text \<open>The rule kinds that reach the range code (the source's last branch).\<close>

definition defaultPath :: "RuleKind \<Rightarrow> bool" where
  "defaultPath k = (k = Specific \<or> k = Range \<or> k = NightGeneral \<or> k = Unspecified)"

text \<open>The local constants \<^verbatim>\<open>startDay\<close> and \<^verbatim>\<open>endDay\<close> of the range code, as functions of the
  month configuration and the rule's \<^verbatim>\<open>start_day\<close> and \<^verbatim>\<open>end_day\<close>.\<close>

definition resolvedStart :: "MonthConfig \<Rightarrow> int \<Rightarrow> int" where
  "resolvedStart cfg sd = max 1 (min sd (month_length cfg))"

definition resolvedEnd :: "MonthConfig \<Rightarrow> int \<Rightarrow> int option \<Rightarrow> int" where
  "resolvedEnd cfg sd ed =
     (case ed of None \<Rightarrow> month_length cfg
      | Some e \<Rightarrow> max (resolvedStart cfg sd) (min e (month_length cfg)))"

text \<open>Clamping into an interval, as the specification words it.\<close>

definition clamp :: "int \<Rightarrow> int \<Rightarrow> int \<Rightarrow> int" where
  "clamp lo hi x = (if x < lo then lo else if hi < x then hi else x)"

text \<open>The infix of the event identifier in the three period branches.\<close>

definition periodTag :: "Period \<Rightarrow> string" where
  "periodTag p = (case p of Night \<Rightarrow> ''_night_'' | Day \<Rightarrow> ''_day_'' | DayAndNight \<Rightarrow> ''_allday_'')"

text \<open>The set \<^verbatim>\<open>target\<close> of a weekday rule.\<close>

definition weekdayTarget :: "'s StandardItem \<Rightarrow> JsValue set" where
  "weekdayTarget item =
     set (map weekdayToLuxon (case weekdays item of None \<Rightarrow> [] | Some ws \<Rightarrow> ws))"

text \<open>The ordinal suffix, as the specification words it.\<close>

definition ordinalSuffix :: "int \<Rightarrow> string" where
  "ordinalSuffix n =
     (if n mod 100 \<in> {11..13} then ''th''
      else if n mod 10 = 1 then ''st''
      else if n mod 10 = 2 then ''nd''
      else if n mod 10 = 3 then ''rd''
      else ''th'')"

text \<open>The suffix \<^verbatim>\<open>getOrdinal\<close> picks, as a function of \<^verbatim>\<open>v\<close>.\<close>

definition pickSuffix :: "int \<Rightarrow> string" where
  "pickSuffix v =
     (let s = [''th'', ''st'', ''nd'', ''rd'']
      in case js_index s (js_rem (v - 20) 10) of
            Some x \<Rightarrow> x
          | None \<Rightarrow> (case js_index s v of Some x \<Rightarrow> x | None \<Rightarrow> s ! 0))"


text \<open>The composite (title, start, end) of an event, and the list in which of several events
  with one composite only the earliest stays.\<close>

definition triple :: "'s ExpandedEvent \<Rightarrow> string \<times> string option \<times> string option" where
  "triple ev = (title ev, startISO ev, endISO ev)"

fun keepEarliest :: "'s ExpandedEvent list \<Rightarrow> 's ExpandedEvent list" where
  "keepEarliest [] = []"
| "keepEarliest (e # es) = e # keepEarliest (filter (\<lambda>x. triple x \<noteq> triple e) es)"

text \<open>The characters of an ISO string; an ISO field whose text has no separator of the key and
  is \<^verbatim>\<open>null\<close> only when the field is.\<close>

definition isoChars :: "char set" where
  "isoChars = set ''0123456789-+:.T''"

definition isoField :: "string option \<Rightarrow> bool" where
  "isoField x = (CHR ''|'' \<notin> set (isoText x) \<and> (x = None) = (isoText x = ''null''))"

definition isoEvent :: "'s ExpandedEvent \<Rightarrow> bool" where
  "isoEvent ev = (isoField (startISO ev) \<and> isoField (endISO ev))"

subsection \<open>Sample inputs\<close>

text \<open>
  The zone Asia/Qatar (UTC+3 all year), the anchor of Ramadan of the specification's
  scenarios, a location and a rule.

  \<open>adhanInProcessZone off\<close> is a stand-in for the adhan library in a process whose zone is \<open>off\<close>
  minutes east of UTC: like the library it reads the civil date of the \<^verbatim>\<open>Date\<close> it is given in
  the zone of the process; for dawn and dusk it answers 04:30 and 17:45 of that civil date,
  read in the zone of the rule (the hours stand for what the astronomy would give). In
  \<open>sampleAdhan\<close> the process is in the zone of Qatar, in \<open>adhanWestOfQatar\<close> it is at UTC-4 (as
  America/Toronto is in the spring of 2024).
\<close>

definition qatar :: timezone where
  "qatar = (\<lambda>d ms. 180)"

definition ramadan2024 :: MonthConfig where
  "ramadan2024 = \<lparr>startDateISO = ''2024-03-11'', month_length = 30\<rparr>"

definition adhanInProcessZone :: "int \<Rightarrow> PrayerTimes" where
  "adhanInProcessZone off tz c dateJS =
     (case dateJS of
        None \<Rightarrow> (Invalid, Invalid)
      | Some ts \<Rightarrow>
          (let day = (ts + off * 60000) div 86400000
           in (DT day 16200000, DT day 63900000)))"

definition sampleAdhan :: PrayerTimes where
  "sampleAdhan = adhanInProcessZone 180"

definition adhanWestOfQatar :: PrayerTimes where
  "adhanWestOfQatar = adhanInProcessZone (- 240)"

definition doha :: Coords where
  "doha = \<lparr>lat = 25, lon = 51\<rparr>"

definition sampleRule :: "unit StandardItem" where
  "sampleRule = \<lparr>item_id = ''r1'', hijri_month = ''Ramadan'', label = '''', period = Night,
     rule_kind = Range, start_day = Some 1, end_day = Some 99, weekdays = None,
     item_text = ''Recite'', sections = None\<rparr>"

section \<open>Properties\<close>

subsection \<open>Characters of the ISO strings\<close>

lemma digit_isoChars: "digit n \<in> isoChars"
proof -
  have "nat (n mod 10) < length ''0123456789''" by simp
  then have "''0123456789'' ! nat (n mod 10) \<in> set ''0123456789''" by (rule nth_mem)
  then show ?thesis unfolding digit_def isoChars_def by auto
qed

lemma show_nat_isoChars: "set (show_nat n) \<subseteq> isoChars"
proof (induction n rule: show_nat.induct)
  case (1 n)
  show ?case
  proof (cases "n < 10")
    case True
    then show ?thesis by (simp add: show_nat.simps [of n] digit_isoChars)
  next
    case False
    with "1" show ?thesis by (simp add: show_nat.simps [of n] digit_isoChars)
  qed
qed

lemma padStart_isoChars: "set s \<subseteq> isoChars \<Longrightarrow> set (padStart w s) \<subseteq> isoChars"
  by (auto simp: padStart_def isoChars_def)

lemma pad_show_isoChars: "set (padStart w (show_nat n)) \<subseteq> isoChars"
  by (rule padStart_isoChars) (rule show_nat_isoChars)

lemma showYear_isoChars: "set (showYear y) \<subseteq> isoChars"
proof -
  have "CHR ''-'' \<in> isoChars" "CHR ''+'' \<in> isoChars"
    by (simp_all add: isoChars_def)
  then show ?thesis
    using pad_show_isoChars by (auto simp: showYear_def)
qed

lemma showOffset_isoChars: "set (showOffset off) \<subseteq> isoChars"
proof -
  have "CHR ''-'' \<in> isoChars" "CHR ''+'' \<in> isoChars" "CHR '':'' \<in> isoChars"
    by (simp_all add: isoChars_def)
  then show ?thesis
    using pad_show_isoChars by (auto simp: showOffset_def)
qed

lemma toISO_isoChars:
  assumes "toISO tz dt = Some s"
  shows "set s \<subseteq> isoChars \<and> CHR ''T'' \<in> set s"
proof (cases dt)
  case Invalid
  with assms show ?thesis by (simp add: toISO_def)
next
  case (DT d ms)
  obtain y m dd where cv: "civilFromDays d = (y, m, dd)" by (cases "civilFromDays d")
  have pun: "CHR ''-'' \<in> isoChars" "CHR '':'' \<in> isoChars" "CHR ''.'' \<in> isoChars"
    "CHR ''T'' \<in> isoChars"
    by (simp_all add: isoChars_def)
  from assms DT cv have s: "s = showYear y @ CHR ''-'' # padStart 2 (show_nat m) @ CHR ''-''
                   # padStart 2 (show_nat dd) @ CHR ''T''
                   # padStart 2 (show_nat (ms div 3600000)) @ CHR '':''
                   # padStart 2 (show_nat (ms div 60000 mod 60)) @ CHR '':''
                   # padStart 2 (show_nat (ms div 1000 mod 60)) @ CHR ''.''
                   # padStart 3 (show_nat (ms mod 1000)) @ showOffset (tz d ms)"
    by (simp add: toISO_def)
  show ?thesis
    unfolding s using pun showYear_isoChars showOffset_isoChars pad_show_isoChars
    by (simp add: subset_iff)
qed

lemma isoField_toISO: "isoField (toISO tz dt)"
proof (cases "toISO tz dt")
  case None
  then show ?thesis by (simp add: isoField_def isoText_def)
next
  case (Some s)
  from toISO_isoChars [OF Some] have sub: "set s \<subseteq> isoChars" and t: "CHR ''T'' \<in> set s"
    by simp_all
  have "CHR ''|'' \<notin> isoChars" by (simp add: isoChars_def)
  with sub have "CHR ''|'' \<notin> set s" by blast
  moreover from t have "s \<noteq> ''null''" by auto
  ultimately show ?thesis using Some by (simp add: isoField_def isoText_def)
qed

lemma isoText_inj: "isoField x \<Longrightarrow> isoField y \<Longrightarrow> isoText x = isoText y \<Longrightarrow> x = y"
  by (cases x; cases y) (auto simp: isoField_def isoText_def)

subsection \<open>The key of the duplicate filter determines the composite\<close>

lemma split_at_last_sep:
  assumes "a @ c # s = a' @ c # s'" and "c \<notin> set s" and "c \<notin> set s'"
  shows "a = a' \<and> s = s'"
proof -
  from assms(1) have "rev s @ c # rev a = rev s' @ c # rev a'"
    by (metis rev.simps(2) rev_append append_assoc append_Cons append_Nil)
  then have "takeWhile (\<lambda>x. x \<noteq> c) (rev s @ c # rev a)
      = takeWhile (\<lambda>x. x \<noteq> c) (rev s' @ c # rev a')"
    by simp
  moreover have "takeWhile (\<lambda>x. x \<noteq> c) (rev s) = rev s"
    "takeWhile (\<lambda>x. x \<noteq> c) (rev s') = rev s'"
    using assms(2,3) by (auto simp: takeWhile_eq_all_conv)
  ultimately have "rev s = rev s'"
    by (simp add: takeWhile_tail)
  then have "s = s'" by simp
  with assms(1) show ?thesis by simp
qed

lemma eventKey_inj:
  assumes "isoEvent e" and "isoEvent e'"
  shows "eventKey e = eventKey e' \<longleftrightarrow> triple e = triple e'"
proof
  assume k: "eventKey e = eventKey e'"
  from assms have p: "CHR ''|'' \<notin> set (isoText (endISO e))" "CHR ''|'' \<notin> set (isoText (endISO e'))"
    "CHR ''|'' \<notin> set (isoText (startISO e))" "CHR ''|'' \<notin> set (isoText (startISO e'))"
    by (simp_all add: isoEvent_def isoField_def)
  from k have "(title e @ ''|'' @ isoText (startISO e)) @ CHR ''|'' # isoText (endISO e)
      = (title e' @ ''|'' @ isoText (startISO e')) @ CHR ''|'' # isoText (endISO e')"
    by (simp add: eventKey_def)
  from split_at_last_sep [OF this p(1,2)]
  have 1: "title e @ CHR ''|'' # isoText (startISO e) = title e' @ CHR ''|'' # isoText (startISO e')"
    and 2: "isoText (endISO e) = isoText (endISO e')" by simp_all
  from split_at_last_sep [OF 1 p(3,4)]
  have 3: "title e = title e'" and 4: "isoText (startISO e) = isoText (startISO e')" by simp_all
  from assms 2 4 have "startISO e = startISO e'" "endISO e = endISO e'"
    by (auto simp: isoEvent_def intro: isoText_inj)
  with 3 show "triple e = triple e'" by (simp add: triple_def)
next
  assume "triple e = triple e'"
  then show "eventKey e = eventKey e'" by (simp add: triple_def eventKey_def)
qed

lemma filterSeen_keepEarliest:
  "\<forall>e \<in> set evs. isoEvent e \<Longrightarrow>
   filterSeen seen evs = keepEarliest (filter (\<lambda>e. eventKey e \<notin> seen) evs)"
proof (induction evs arbitrary: seen)
  case Nil
  show ?case by simp
next
  case (Cons e es)
  then have iso: "isoEvent e" and isos: "\<forall>x \<in> set es. isoEvent x" by simp_all
  show ?case
  proof (cases "eventKey e \<in> seen")
    case True
    with Cons.IH [OF isos] show ?thesis by simp
  next
    case False
    have "filter (\<lambda>x. eventKey x \<notin> insert (eventKey e) seen) es
        = filter (\<lambda>x. triple x \<noteq> triple e) (filter (\<lambda>x. eventKey x \<notin> seen) es)"
      using isos iso by (auto simp: eventKey_inj intro!: filter_cong)
    with False Cons.IH [OF isos, of "insert (eventKey e) seen"] show ?thesis by simp
  qed
qed

lemma keepEarliest_set: "set (map triple (keepEarliest es)) = set (map triple es)"
proof (induction es rule: keepEarliest.induct)
  case 1
  show ?case by simp
next
  case (2 e es)
  then show ?case by auto
qed

lemma keepEarliest_subset: "set (keepEarliest es) \<subseteq> set es"
  by (induction es rule: keepEarliest.induct) auto

lemma keepEarliest_distinct: "distinct (map triple (keepEarliest es))"
proof (induction es rule: keepEarliest.induct)
  case 1
  show ?case by simp
next
  case (2 e es)
  have "triple e \<notin> triple ` set (keepEarliest (filter (\<lambda>x. triple x \<noteq> triple e) es))"
    using keepEarliest_subset [of "filter (\<lambda>x. triple x \<noteq> triple e) es"] by auto
  with 2 show ?case by simp
qed

subsection \<open>The ordinal\<close>

lemma js_rem_nonneg: "0 \<le> a \<Longrightarrow> 0 < b \<Longrightarrow> js_rem a b = a mod b"
  by (cases "a = 0") (simp_all add: js_rem_def)

lemma getOrdinal_pick: "getOrdinal n = show_int n @ pickSuffix (js_rem n 100)"
  by (simp add: getOrdinal_def pickSuffix_def Let_def)

lemma suffix_low:
  assumes "0 \<le> v" and "v < 20"
  shows "pickSuffix v = ordinalSuffix v"
proof -
  from assms have "v \<in> set [0..19]" by simp
  then have "v \<in> {0,1,2,3,4,5,6,7,8,9,10,11,12,13,14,15,16,17,18,19}"
    by (simp add: upto_rec1)
  then show ?thesis
    by (elim insertE emptyE) (simp_all add: pickSuffix_def ordinalSuffix_def js_rem_def js_index_def)
qed

lemma suffix_high:
  assumes "20 \<le> v" and "v < 100"
  shows "pickSuffix v = ordinalSuffix v"
proof -
  have "(v + (- 2) * 10) mod 10 = v mod 10" by (rule mod_mult_self1)
  with assms have r: "js_rem (v - 20) 10 = v mod 10"
    by (simp add: js_rem_nonneg)
  from assms have h: "v mod 100 = v" by simp
  from assms have o: "ordinalSuffix v = (if v mod 10 = 1 then ''st''
      else if v mod 10 = 2 then ''nd'' else if v mod 10 = 3 then ''rd'' else ''th'')"
    by (simp add: ordinalSuffix_def h)
  have p: "pickSuffix v = (case js_index [''th'', ''st'', ''nd'', ''rd''] (v mod 10) of
            Some x \<Rightarrow> x | None \<Rightarrow> ''th'')"
    using assms by (simp add: pickSuffix_def r js_index_def)
  have "v mod 10 \<in> set [0..9]" by simp
  then have "v mod 10 \<in> {0,1,2,3,4,5,6,7,8,9}" by (simp add: upto_rec1)
  then show ?thesis unfolding o p
    by (elim insertE emptyE) (simp_all add: js_index_def)
qed

lemma ordinalSuffix_mod: "ordinalSuffix (n mod 100) = ordinalSuffix n"
proof -
  have a: "n mod 100 mod 10 = n mod 10" by (rule mod_mod_cancel) simp
  have b: "n mod 100 mod 100 = n mod 100" by (rule mod_mod_trivial)
  show ?thesis unfolding ordinalSuffix_def a b by (rule refl)
qed

lemma getOrdinal_spec:
  assumes "1 \<le> n"
  shows "getOrdinal n = show_int n @ ordinalSuffix n"
proof -
  have v: "0 \<le> n mod 100" "n mod 100 < 100" by simp_all
  from assms have r: "js_rem n 100 = n mod 100" by (simp add: js_rem_nonneg)
  have "pickSuffix (n mod 100) = ordinalSuffix (n mod 100)"
  proof (cases "n mod 100 < 20")
    case True
    with v(1) show ?thesis by (rule suffix_low)
  next
    case False
    then have "20 \<le> n mod 100" by (simp only: not_less)
    then show ?thesis using v(2) by (rule suffix_high)
  qed
  with r have "pickSuffix (js_rem n 100) = ordinalSuffix (n mod 100)"
    by (rule ssubst)
  also have "\<dots> = ordinalSuffix n" by (rule ordinalSuffix_mod)
  finally show ?thesis by (simp only: getOrdinal_pick)
qed

lemma getOrdinal_examples:
  "getOrdinal 1 = ''1st'' \<and> getOrdinal 2 = ''2nd'' \<and> getOrdinal 3 = ''3rd''
   \<and> getOrdinal 11 = ''11th'' \<and> getOrdinal 21 = ''21st''"
  by code_simp


subsection \<open>What each branch of the expander pushes\<close>

lemma hijri_valid:
  "fromISO (startDateISO cfg) tz = DT a t \<Longrightarrow> hijriDayToGregorian cfg d tz = DT (a + d - 1) 0"
  by (simp add: hijriDayToGregorian_def startOfDay_def plusDays_def)

lemma hijri_next: "plusDays (hijriDayToGregorian cfg d tz) 1 = hijriDayToGregorian cfg (d + 1) tz"
  by (cases "fromISO (startDateISO cfg) tz")
     (simp_all add: hijriDayToGregorian_def startOfDay_def plusDays_def)

lemma kind_cases:
  "k = MonthAll \<or> k = MonthAnyTime \<or> k = Weekday \<or> k = WeekdayMulti \<or> defaultPath k"
  by (cases k) (simp_all add: defaultPath_def)

lemma defaultPath_not_special:
  "defaultPath k \<Longrightarrow> k \<noteq> MonthAll \<and> k \<noteq> MonthAnyTime \<and> k \<noteq> Weekday \<and> k \<noteq> WeekdayMulti"
  by (auto simp: defaultPath_def)

lemma expand_skipped:
  assumes "defaultPath (rule_kind item)" and "start_day item = None \<or> start_day item = Some 0"
  shows "expandConfigured adhan tz c cfg item = []"
  using assms(2) defaultPath_not_special [OF assms(1)]
  by (auto simp: expandConfigured_def Let_def)

lemma expand_night:
  assumes "defaultPath (rule_kind item)" and "start_day item = Some sd" and "sd \<noteq> 0"
    and "period item = Night"
  shows "expandConfigured adhan tz c cfg item =
     map (\<lambda>d. \<lparr>event_id = item_id item @ ''_night_'' @ show_int d,
               title = orElse (label item) (getOrdinal d @ '' Night''),
               startISO = toISO tz (startOfDay (minusDays (hijriDayToGregorian cfg d tz) 1)),
               endISO = toISO tz (endOfDay (minusDays (hijriDayToGregorian cfg d tz) 1)),
               allDay = True,
               description = item_text item,
               event_sections = sections item,
               color = ''#2563eb''\<rparr>)
         [resolvedStart cfg sd..resolvedEnd cfg sd (end_day item)]"
  using assms(2-4) defaultPath_not_special [OF assms(1)]
  by (simp add: expandConfigured_def Let_def resolvedStart_def resolvedEnd_def split: option.split)

lemma expand_day:
  assumes "defaultPath (rule_kind item)" and "start_day item = Some sd" and "sd \<noteq> 0"
    and "period item = Day"
  shows "expandConfigured adhan tz c cfg item =
     map (\<lambda>d. \<lparr>event_id = item_id item @ ''_day_'' @ show_int d,
               title = orElse (label item) (getOrdinal d @ '' Day''),
               startISO = toISO tz (fst (adhan tz c (toJSDate tz (hijriDayToGregorian cfg d tz)))),
               endISO = toISO tz (snd (adhan tz c (toJSDate tz (hijriDayToGregorian cfg d tz)))),
               allDay = False,
               description = item_text item,
               event_sections = sections item,
               color = ''#059669''\<rparr>)
         [resolvedStart cfg sd..resolvedEnd cfg sd (end_day item)]"
  using assms(2-4) defaultPath_not_special [OF assms(1)]
  by (simp add: expandConfigured_def Let_def resolvedStart_def resolvedEnd_def
      getPrayerTimesAccurate_def case_prod_beta split: option.split)

lemma expand_allday:
  assumes "defaultPath (rule_kind item)" and "start_day item = Some sd" and "sd \<noteq> 0"
    and "period item = DayAndNight"
  shows "expandConfigured adhan tz c cfg item =
     map (\<lambda>d. \<lparr>event_id = item_id item @ ''_allday_'' @ show_int d,
               title = orElse (label item) (getOrdinal d @ '' Day''),
               startISO = toISO tz (startOfDay (hijriDayToGregorian cfg d tz)),
               endISO = toISO tz (startOfDay (plusDays (hijriDayToGregorian cfg d tz) 1)),
               allDay = True,
               description = item_text item,
               event_sections = sections item,
               color = ''#8b5cf6''\<rparr>)
         [resolvedStart cfg sd..resolvedEnd cfg sd (end_day item)]"
  using assms(2-4) defaultPath_not_special [OF assms(1)]
  by (simp add: expandConfigured_def Let_def resolvedStart_def resolvedEnd_def split: option.split)

lemma expand_month:
  assumes "rule_kind item = MonthAll \<or> rule_kind item = MonthAnyTime"
  shows "expandConfigured adhan tz c cfg item =
     [\<lparr>event_id = item_id item,
       title = orElse (label item) (hijri_month item),
       startISO = toISO tz (hijriDayToGregorian cfg 1 tz),
       endISO = toISO tz (plusDays (hijriDayToGregorian cfg (month_length cfg) tz) 1),
       allDay = True,
       description = item_text item,
       event_sections = sections item,
       color = ''#8b5cf6''\<rparr>]"
  using assms by (auto simp: expandConfigured_def Let_def)

lemma expand_weekday:
  assumes "rule_kind item = Weekday \<or> rule_kind item = WeekdayMulti"
  shows "expandConfigured adhan tz c cfg item =
     map (\<lambda>d. \<lparr>event_id = item_id item @ ''_d'' @ show_int d,
               title = orElse (label item) (getOrdinal d @ '' Day''),
               startISO = toISO tz (fst (adhan tz c (toJSDate tz (hijriDayToGregorian cfg d tz)))),
               endISO = toISO tz (snd (adhan tz c (toJSDate tz (hijriDayToGregorian cfg d tz)))),
               allDay = False,
               description = item_text item,
               event_sections = sections item,
               color = ''#059669''\<rparr>)
         (filter (\<lambda>d. setHas (weekdayTarget item) (weekday (hijriDayToGregorian cfg d tz)))
                 [1..month_length cfg])"
  using assms
  by (auto simp: expandConfigured_def Let_def getPrayerTimesAccurate_def case_prod_beta
      weekdayTarget_def)

lemma expand_ids:
  assumes "defaultPath (rule_kind item)" and "start_day item = Some sd" and "sd \<noteq> 0"
  shows "map event_id (expandConfigured adhan tz c cfg item) =
     map (\<lambda>d. item_id item @ periodTag (period item) @ show_int d)
       [resolvedStart cfg sd..resolvedEnd cfg sd (end_day item)]"
proof (cases "period item")
  case Day
  then show ?thesis by (simp add: expand_day [OF assms] periodTag_def comp_def)
next
  case Night
  then show ?thesis by (simp add: expand_night [OF assms] periodTag_def comp_def)
next
  case DayAndNight
  then show ?thesis by (simp add: expand_allday [OF assms] periodTag_def comp_def)
qed

lemma resolved_clamp:
  assumes "1 \<le> month_length cfg"
  shows "resolvedStart cfg sd = clamp 1 (month_length cfg) sd"
    and "resolvedEnd cfg sd None = month_length cfg"
    and "resolvedEnd cfg sd (Some e) = clamp (resolvedStart cfg sd) (month_length cfg) e"
    and "1 \<le> resolvedStart cfg sd" and "resolvedStart cfg sd \<le> resolvedEnd cfg sd ed"
    and "resolvedEnd cfg sd ed \<le> month_length cfg"
  using assms
  by (auto simp: resolvedStart_def resolvedEnd_def clamp_def split: option.split)

lemma expandConfigured_iso:
  assumes "e \<in> set (expandConfigured adhan tz c cfg item)"
  shows "isoEvent e"
proof -
  consider (month) "rule_kind item = MonthAll \<or> rule_kind item = MonthAnyTime"
    | (week) "rule_kind item = Weekday \<or> rule_kind item = WeekdayMulti"
    | (skip) "defaultPath (rule_kind item)" "start_day item = None \<or> start_day item = Some 0"
    | (range) sd where "defaultPath (rule_kind item)" "start_day item = Some sd" "sd \<noteq> 0"
    using kind_cases [of "rule_kind item"] by (cases "start_day item") auto
  then show ?thesis
  proof cases
    case month
    with assms show ?thesis
      by (auto simp: expand_month isoEvent_def isoField_toISO)
  next
    case week
    with assms show ?thesis
      by (auto simp: expand_weekday isoEvent_def isoField_toISO)
  next
    case skip
    with assms show ?thesis by (simp add: expand_skipped)
  next
    case range
    show ?thesis
    proof (cases "period item")
      case Day
      with assms range show ?thesis
        by (auto simp: expand_day isoEvent_def isoField_toISO)
    next
      case Night
      with assms range show ?thesis
        by (auto simp: expand_night isoEvent_def isoField_toISO)
    next
      case DayAndNight
      with assms range show ?thesis
        by (auto simp: expand_allday isoEvent_def isoField_toISO)
    qed
  qed
qed

lemma expandWithoutLength_iso: "e \<in> set (expandWithoutLength tz item) \<Longrightarrow> isoEvent e"
  by (auto simp: expandWithoutLength_def isoEvent_def isoField_toISO split: if_splits)

lemma expandItem_iso:
  assumes "e \<in> set (expandItem adhan monthConfigs tz c item)"
  shows "isoEvent e"
proof (cases "lookupMonth monthConfigs (normMonth (hijri_month item))")
  case None
  with assms show ?thesis by (simp add: expandItem_def)
next
  case (Some found)
  with assms show ?thesis
    by (cases found) (auto simp: expandItem_def expandConfigured_iso expandWithoutLength_iso)
qed

lemma generated_iso: "\<forall>e \<in> set (generatedEvents adhan monthConfigs tz c its). isoEvent e"
  by (auto simp: generatedEvents_def expandItem_iso)

lemma lookupMonth_own: "monthConfigs key = Some cfg \<Longrightarrow> lookupMonth monthConfigs key = Some (OwnConfig cfg)"
  by (simp add: lookupMonth_def)

lemma expandItem_own:
  "monthConfigs (normMonth (hijri_month item)) = Some cfg \<Longrightarrow>
   expandItem adhan monthConfigs tz c item = expandConfigured adhan tz c cfg item"
  by (simp add: expandItem_def lookupMonth_own)

lemma expand_single:
  "monthConfigs (normMonth (hijri_month item)) = Some cfg \<Longrightarrow>
   expandAmaalEvents adhan [item] monthConfigs tz c
     = filterSeen {} (expandConfigured adhan tz c cfg item)"
  by (simp add: expandAmaalEvents_def generatedEvents_def expandItem_own)

lemma weekday_range: "weekday dt = Some w \<Longrightarrow> 1 \<le> w \<and> w \<le> 7"
  by (cases dt) (auto simp: weekday_def)

lemma weekdayToLuxon_unknown:
  "s \<notin> {''MON'', ''TUE'', ''WED'', ''THU'', ''FRI'', ''SAT'', ''SUN''} \<Longrightarrow>
   weekdayToLuxon s = (if s \<in> set objectPrototypeKeys then JsObject s else JsNumber 0)"
  by (simp add: weekdayToLuxon_def)

lemma no_weekday_no_events:
  assumes "rule_kind item = Weekday \<or> rule_kind item = WeekdayMulti"
    and "weekdayTarget item \<subseteq> insert (JsNumber 0) (range JsObject)"
  shows "expandConfigured adhan tz c cfg item = []"
proof -
  have "\<not> setHas (weekdayTarget item) (weekday g)" for g
  proof (cases "weekday g")
    case None
    then show ?thesis by (simp add: setHas_def)
  next
    case (Some w)
    from weekday_range [OF Some] assms(2) have "JsNumber w \<notin> weekdayTarget item" by auto
    with Some show ?thesis by (simp add: setHas_def)
  qed
  then show ?thesis by (simp add: expand_weekday [OF assms(1)])
qed

subsection \<open>Values of the scenarios\<close>

lemma anchor_2024_03_11: "fromISO ''2024-03-11'' tz = DT 19793 0"
  by code_simp

lemma normMonth_Ramadan: "normMonth ''Ramadan'' = ''ramadan''"
  by code_simp

lemma iso_2024_03_24_start: "toISO qatar (DT 19806 0) = Some ''2024-03-24T00:00:00.000+03:00''"
  by code_simp

lemma iso_2024_03_24_end: "toISO qatar (DT 19806 86399999) = Some ''2024-03-24T23:59:59.999+03:00''"
  by code_simp

lemma iso_2024_03_11: "toISO qatar (DT 19793 0) = Some ''2024-03-11T00:00:00.000+03:00''"
  by code_simp

lemma iso_2024_04_10: "toISO qatar (DT 19823 0) = Some ''2024-04-10T00:00:00.000+03:00''"
  by code_simp

lemma iso_2024_03_10_start: "toISO qatar (DT 19792 0) = Some ''2024-03-10T00:00:00.000+03:00''"
  by code_simp

lemma ordinal_15: "getOrdinal 15 = ''15th'' \<and> show_int 15 = ''15''"
  by code_simp


subsection \<open>Arithmetic of the weekdays\<close>

lemma weekday_shift:
  assumes "weekday (DT a 0) = Some 7"
  shows "weekday (DT (a + d - 1) 0) = Some ((d + 5) mod 7 + 1)"
proof -
  from assms have s: "(a + 3) mod 7 = 6" by (simp add: weekday_def)
  have "(a + d - 1 + 3) mod 7 = ((a + 3) + (d - 1)) mod 7" by (simp add: algebra_simps)
  also have "\<dots> = ((a + 3) mod 7 + (d - 1)) mod 7" by (simp only: mod_add_left_eq)
  also have "\<dots> = (d + 5) mod 7" by (simp add: s algebra_simps)
  finally show ?thesis by (simp add: weekday_def)
qed

lemma thursdays_of_30: "filter (\<lambda>d. (d + 5) mod 7 + 1 = 4) [1..30] = [5, 12, 19, 26]"
  by code_simp

lemma target_THU: "weekdays item = Some [''THU''] \<Longrightarrow> weekdayTarget item = {JsNumber 4}"
  by (simp add: weekdayTarget_def weekdayToLuxon_def)

lemma filterSeen_single: "filterSeen {} [e] = [e]"
  by simp

subsection \<open>The branches on their regular inputs\<close>

text \<open>
  The lemmas of this subsection say what the range code, its night branch and the weekday
  branch push when the start day is present and not 0, and what the lookup of the month does
  when it finds nothing. The inputs they leave out are the subject of the claims below.
\<close>

lemma range_days_clamped:
  assumes "defaultPath (rule_kind item)" and "1 \<le> month_length cfg"
  shows "(start_day item = None \<longrightarrow> expandConfigured adhan tz c cfg item = [])
     \<and> (\<forall>sd. start_day item = Some sd \<and> sd \<noteq> 0 \<longrightarrow>
            resolvedStart cfg sd = clamp 1 (month_length cfg) sd
          \<and> resolvedEnd cfg sd (end_day item) =
              (case end_day item of None \<Rightarrow> month_length cfg
               | Some e \<Rightarrow> clamp (resolvedStart cfg sd) (month_length cfg) e)
          \<and> 1 \<le> resolvedStart cfg sd
          \<and> resolvedStart cfg sd \<le> resolvedEnd cfg sd (end_day item)
          \<and> resolvedEnd cfg sd (end_day item) \<le> month_length cfg
          \<and> map event_id (expandConfigured adhan tz c cfg item) =
              map (\<lambda>d. item_id item @ periodTag (period item) @ show_int d)
                [resolvedStart cfg sd..resolvedEnd cfg sd (end_day item)])"
proof -
  have "resolvedEnd cfg sd (end_day item) =
              (case end_day item of None \<Rightarrow> month_length cfg
               | Some e \<Rightarrow> clamp (resolvedStart cfg sd) (month_length cfg) e)" for sd
    using resolved_clamp(2,3) [OF assms(2)] by (simp split: option.split)
  with expand_skipped [OF assms(1)] expand_ids [OF assms(1)] resolved_clamp(1,4,5,6) [OF assms(2)]
  show ?thesis by blast
qed

lemma night_event_on_eve:
  assumes "defaultPath (rule_kind item)" and "period item = Night"
    and "start_day item = Some sd" and "sd \<noteq> 0"
    and "fromISO (startDateISO cfg) tz = DT a t"
  shows "expandConfigured adhan tz c cfg item =
       map (\<lambda>d. \<lparr>event_id = item_id item @ ''_night_'' @ show_int d,
                 title = orElse (label item) (getOrdinal d @ '' Night''),
                 startISO = toISO tz (DT (a + d - 2) 0),
                 endISO = toISO tz (DT (a + d - 2) 86399999),
                 allDay = True,
                 description = item_text item,
                 event_sections = sections item,
                 color = ''#2563eb''\<rparr>)
           [resolvedStart cfg sd..resolvedEnd cfg sd (end_day item)]
     \<and> (\<forall>d. hijriDayToGregorian cfg d tz = DT (a + d - 1) 0)
     \<and> (startDateISO cfg = ''2024-03-11'' \<and> month_length cfg = 30 \<and> tz = qatar
          \<and> sd = 15 \<and> end_day item = Some 15 \<and> label item = ''''
          \<and> monthConfigs (normMonth (hijri_month item)) = Some cfg \<longrightarrow>
        expandAmaalEvents adhan [item] monthConfigs tz c =
          [\<lparr>event_id = item_id item @ ''_night_15'',
            title = ''15th Night'',
            startISO = Some ''2024-03-24T00:00:00.000+03:00'',
            endISO = Some ''2024-03-24T23:59:59.999+03:00'',
            allDay = True,
            description = item_text item,
            event_sections = sections item,
            color = ''#2563eb''\<rparr>])"
proof -
  have h: "hijriDayToGregorian cfg d tz = DT (a + d - 1) 0" for d
    using assms(5) by (rule hijri_valid)
  have g: "expandConfigured adhan tz c cfg item =
       map (\<lambda>d. \<lparr>event_id = item_id item @ ''_night_'' @ show_int d,
                 title = orElse (label item) (getOrdinal d @ '' Night''),
                 startISO = toISO tz (DT (a + d - 2) 0),
                 endISO = toISO tz (DT (a + d - 2) 86399999),
                 allDay = True,
                 description = item_text item,
                 event_sections = sections item,
                 color = ''#2563eb''\<rparr>)
           [resolvedStart cfg sd..resolvedEnd cfg sd (end_day item)]"
    by (simp add: expand_night [OF assms(1,3,4,2)] h minusDays_def startOfDay_def endOfDay_def)
  have s: "expandAmaalEvents adhan [item] monthConfigs tz c =
          [\<lparr>event_id = item_id item @ ''_night_15'',
            title = ''15th Night'',
            startISO = Some ''2024-03-24T00:00:00.000+03:00'',
            endISO = Some ''2024-03-24T23:59:59.999+03:00'',
            allDay = True,
            description = item_text item,
            event_sections = sections item,
            color = ''#2563eb''\<rparr>]"
    if sc: "startDateISO cfg = ''2024-03-11''" "month_length cfg = 30" "tz = qatar" "sd = 15"
      "end_day item = Some 15" "label item = ''''"
      "monthConfigs (normMonth (hijri_month item)) = Some cfg"
  proof -
    from assms(5) sc(1) have a: "a = 19793" by (simp add: anchor_2024_03_11)
    from sc have r: "[resolvedStart cfg sd..resolvedEnd cfg sd (end_day item)] = [15]"
      by (simp add: resolvedStart_def resolvedEnd_def)
    have "expandAmaalEvents adhan [item] monthConfigs tz c
        = filterSeen {} (expandConfigured adhan tz c cfg item)"
      using sc(7) by (rule expand_single [where monthConfigs = monthConfigs and item = item])
    then show ?thesis
      unfolding g r using sc(3,6) ordinal_15
      by (simp add: a iso_2024_03_24_start iso_2024_03_24_end orElse_def)
  qed
  from g h s show ?thesis by blast
qed

lemma first_night_before_anchor:
  assumes "defaultPath (rule_kind item)" and "period item = Night"
    and "start_day item = Some sd" and "sd \<noteq> 0"
    and "resolvedStart cfg sd = 1" and "1 \<le> month_length cfg"
    and "fromISO (startDateISO cfg) tz = DT a t"
  shows "expandConfigured adhan tz c cfg item \<noteq> []
     \<and> startISO (hd (expandConfigured adhan tz c cfg item)) = toISO tz (DT (a - 1) 0)
     \<and> endISO (hd (expandConfigured adhan tz c cfg item)) = toISO tz (DT (a - 1) 86399999)
     \<and> allDay (hd (expandConfigured adhan tz c cfg item))
     \<and> hijriDayToGregorian cfg 1 tz = DT a 0
     \<and> a - 1 \<notin> {a..<a + month_length cfg}"
proof -
  have h: "hijriDayToGregorian cfg d tz = DT (a + d - 1) 0" for d
    using assms(7) by (rule hijri_valid)
  from resolved_clamp(5) [OF assms(6), of sd "end_day item"] assms(5)
  have "1 \<le> resolvedEnd cfg sd (end_day item)" by simp
  then have r: "[resolvedStart cfg sd..resolvedEnd cfg sd (end_day item)]
      = 1 # [2..resolvedEnd cfg sd (end_day item)]"
    by (simp add: assms(5) upto_rec1)
  show ?thesis
    unfolding expand_night [OF assms(1,3,4,2)] r
    by (simp add: h minusDays_def startOfDay_def endOfDay_def)
qed

lemma weekday_rule_events:
  assumes "rule_kind item = Weekday \<or> rule_kind item = WeekdayMulti"
    and "fromISO (startDateISO cfg) tz = DT a t"
  shows "expandConfigured adhan tz c cfg item =
       map (\<lambda>d. \<lparr>event_id = item_id item @ ''_d'' @ show_int d,
                 title = orElse (label item) (getOrdinal d @ '' Day''),
                 startISO = toISO tz (fst (adhan tz c (toJSDate tz (DT (a + d - 1) 0)))),
                 endISO = toISO tz (snd (adhan tz c (toJSDate tz (DT (a + d - 1) 0)))),
                 allDay = False,
                 description = item_text item,
                 event_sections = sections item,
                 color = ''#059669''\<rparr>)
           (filter (\<lambda>d. setHas (weekdayTarget item) (weekday (DT (a + d - 1) 0)))
                   [1..month_length cfg])
     \<and> (\<forall>d. hijriDayToGregorian cfg d tz = DT (a + d - 1) 0)
     \<and> (weekdays item = Some [''THU''] \<and> month_length cfg = 30 \<and> weekday (DT a 0) = Some 7 \<longrightarrow>
          filter (\<lambda>d. setHas (weekdayTarget item) (weekday (DT (a + d - 1) 0)))
                 [1..month_length cfg] = [5, 12, 19, 26]
        \<and> length (expandConfigured adhan tz c cfg item) = 4
        \<and> length (expandConfigured adhan tz c cfg item) \<in> {4, 5}
        \<and> (\<forall>d \<in> set [5, 12, 19, 26]. weekday (DT (a + d - 1) 0) = Some 4))"
proof -
  have h: "hijriDayToGregorian cfg d tz = DT (a + d - 1) 0" for d
    using assms(2) by (rule hijri_valid)
  have g: "expandConfigured adhan tz c cfg item =
       map (\<lambda>d. \<lparr>event_id = item_id item @ ''_d'' @ show_int d,
                 title = orElse (label item) (getOrdinal d @ '' Day''),
                 startISO = toISO tz (fst (adhan tz c (toJSDate tz (DT (a + d - 1) 0)))),
                 endISO = toISO tz (snd (adhan tz c (toJSDate tz (DT (a + d - 1) 0)))),
                 allDay = False,
                 description = item_text item,
                 event_sections = sections item,
                 color = ''#059669''\<rparr>)
           (filter (\<lambda>d. setHas (weekdayTarget item) (weekday (DT (a + d - 1) 0)))
                   [1..month_length cfg])"
    by (simp add: expand_weekday [OF assms(1)] h)
  have s: "filter (\<lambda>d. setHas (weekdayTarget item) (weekday (DT (a + d - 1) 0)))
                 [1..month_length cfg] = [5, 12, 19, 26]
        \<and> (\<forall>d \<in> set [5, 12, 19, 26]. weekday (DT (a + d - 1) 0) = Some 4)"
    if sc: "weekdays item = Some [''THU'']" "month_length cfg = 30" "weekday (DT a 0) = Some 7"
  proof -
    have "filter (\<lambda>d. setHas (weekdayTarget item) (weekday (DT (a + d - 1) 0)))
                 [1..month_length cfg] = filter (\<lambda>d. (d + 5) mod 7 + 1 = 4) [1..30]"
      by (simp add: target_THU [OF sc(1)] weekday_shift [OF sc(3)] setHas_def sc(2))
    then have 1: "filter (\<lambda>d. setHas (weekdayTarget item) (weekday (DT (a + d - 1) 0)))
                 [1..month_length cfg] = [5, 12, 19, 26]"
      by (simp only: thursdays_of_30)
    have 2: "\<forall>d \<in> set [5, 12, 19, 26]. weekday (DT (a + d - 1) 0) = Some 4"
      by (simp add: weekday_shift [OF sc(3)])
    from 1 2 show ?thesis by (rule conjI)
  qed
  have l: "length (expandConfigured adhan tz c cfg item) = 4"
    if "filter (\<lambda>d. setHas (weekdayTarget item) (weekday (DT (a + d - 1) 0)))
                 [1..month_length cfg] = [5, 12, 19, 26]"
    unfolding g that by simp
  from g h s l show ?thesis by auto
qed

lemma unconfigured_month_skipped:
  assumes "lookupMonth monthConfigs (normMonth (hijri_month item)) = None"
  shows "expandItem adhan monthConfigs tz c item = []
     \<and> expandAmaalEvents adhan (xs @ item # ys) monthConfigs tz c
         = expandAmaalEvents adhan (xs @ ys) monthConfigs tz c"
  using assms by (simp add: expandItem_def expandAmaalEvents_def generatedEvents_def)

section \<open>The claims\<close>

text \<open>
  C1. The claim: on the range path, with a month of length \<open>L\<close>, the resolved start day is the
  start day clamped into \<open>[1, L]\<close>, so that the start day 0 with the end day 99 in a month of 29
  days yields the events of the days 1 .. 29. The source clamps with
  \<^verbatim>\<open>Math.max(1, Math.min(sd, monthLen))\<close>, but only after \<^verbatim>\<open>if (!sd) continue\<close>, and 0 is falsy:
  the rule with the start day 0 pushes nothing, while the same rule with the start day -3 is
  clamped to day 1 and pushes the 29 events.
\<close>

theorem start_day_zero_pushes_nothing:
  "expandAmaalEvents sampleAdhan [sampleRule\<lparr>start_day := Some 0, end_day := Some 99\<rparr>]
     [''ramadan'' \<mapsto> ramadan2024\<lparr>month_length := 29\<rparr>] qatar doha = []
   \<and> clamp 1 29 0 = 1
   \<and> map event_id (expandConfigured sampleAdhan qatar doha (ramadan2024\<lparr>month_length := 29\<rparr>)
        (sampleRule\<lparr>start_day := Some (- 3), end_day := Some 99\<rparr>))
       = map (\<lambda>d. ''r1_night_'' @ show_int d) [1..29]"
proof -
  let ?r = "sampleRule\<lparr>start_day := Some (- 3), end_day := Some 99\<rparr>"
  let ?cfg = "ramadan2024\<lparr>month_length := 29\<rparr>"
  have z: "expandAmaalEvents sampleAdhan [sampleRule\<lparr>start_day := Some 0, end_day := Some 99\<rparr>]
     [''ramadan'' \<mapsto> ramadan2024\<lparr>month_length := 29\<rparr>] qatar doha = []"
    by code_simp
  have h1: "defaultPath (rule_kind ?r)" by (simp add: sampleRule_def defaultPath_def)
  have h2: "1 \<le> month_length ?cfg" by simp
  have s: "start_day ?r = Some (- 3) \<and> (- 3 :: int) \<noteq> 0" by simp
  have f: "end_day ?r = Some 99" "item_id ?r = ''r1''" "periodTag (period ?r) = ''_night_''"
    "month_length ?cfg = 29"
    by (simp_all add: sampleRule_def periodTag_def)
  have cl: "clamp 1 29 (- 3) = 1" "clamp 1 29 99 = 29" "clamp 1 29 0 = 1"
    by (simp_all add: clamp_def)
  from range_days_clamped [OF h1 h2, of sampleAdhan qatar doha] s
  have "resolvedStart ?cfg (- 3) = clamp 1 (month_length ?cfg) (- 3)"
    and "resolvedEnd ?cfg (- 3) (end_day ?r) =
              (case end_day ?r of None \<Rightarrow> month_length ?cfg
               | Some e \<Rightarrow> clamp (resolvedStart ?cfg (- 3)) (month_length ?cfg) e)"
    and "map event_id (expandConfigured sampleAdhan qatar doha ?cfg ?r) =
              map (\<lambda>d. item_id ?r @ periodTag (period ?r) @ show_int d)
                [resolvedStart ?cfg (- 3)..resolvedEnd ?cfg (- 3) (end_day ?r)]"
    by blast+
  then have "map event_id (expandConfigured sampleAdhan qatar doha ?cfg ?r) =
              map (\<lambda>d. ''r1_night_'' @ show_int d) [1..29]"
    by (simp only: f cl option.case append.simps)
  with z cl(3) show ?thesis by simp
qed

text \<open>
  C2. The claim: a night-period rule on the range path yields, for every resolved lunar day
  \<open>d\<close>, exactly one all-day event from the start to the end of the day before the civil date
  of \<open>d\<close>; with the anchor 2024-03-11 of length 30 in the zone Asia/Qatar, the rule for day 15
  alone, without label, yields the single event of 2024-03-24 titled "15th Night". The source
  does so for the rule of the scenario, but for a night rule with the start day 0 and the end
  day 15, whose resolved days are 1 .. 15, it pushes no event (the falsy start day of C1).
\<close>

theorem night_rule_start_zero_no_event:
  "period (sampleRule\<lparr>start_day := Some 0, end_day := Some 15\<rparr>) = Night
   \<and> resolvedStart ramadan2024 0 = 1 \<and> resolvedEnd ramadan2024 0 (Some 15) = 15
   \<and> expandAmaalEvents sampleAdhan [sampleRule\<lparr>start_day := Some 0, end_day := Some 15\<rparr>]
        [''ramadan'' \<mapsto> ramadan2024] qatar doha = []
   \<and> expandAmaalEvents sampleAdhan [sampleRule\<lparr>start_day := Some 15, end_day := Some 15\<rparr>]
        [''ramadan'' \<mapsto> ramadan2024] qatar doha =
       [\<lparr>event_id = ''r1_night_15'', title = ''15th Night'',
         startISO = Some ''2024-03-24T00:00:00.000+03:00'',
         endISO = Some ''2024-03-24T23:59:59.999+03:00'',
         allDay = True, description = ''Recite'', event_sections = None,
         color = ''#2563eb''\<rparr>]"
  by code_simp

text \<open>
  C3. A month_all or month_any_time rule of a configured month yields exactly one event,
  whatever the month length: an all-day event in the month-wide colour from the start of the
  civil date of day 1 to the start of the civil date of day length + 1. With the anchor
  2024-03-11 and length 30, in the zone Asia/Qatar, it runs from 2024-03-11T00:00 to
  2024-04-10T00:00.
\<close>

theorem month_wide_single_event:
  assumes "rule_kind item = MonthAll \<or> rule_kind item = MonthAnyTime"
    and "monthConfigs (normMonth (hijri_month item)) = Some cfg"
  shows "expandAmaalEvents adhan [item] monthConfigs tz c =
       [\<lparr>event_id = item_id item,
         title = orElse (label item) (hijri_month item),
         startISO = toISO tz (hijriDayToGregorian cfg 1 tz),
         endISO = toISO tz (hijriDayToGregorian cfg (month_length cfg + 1) tz),
         allDay = True,
         description = item_text item,
         event_sections = sections item,
         color = ''#8b5cf6''\<rparr>]
     \<and> (startDateISO cfg = ''2024-03-11'' \<and> month_length cfg = 30 \<longrightarrow>
          map startISO (expandAmaalEvents adhan [item] monthConfigs qatar c)
            = [Some ''2024-03-11T00:00:00.000+03:00'']
        \<and> map endISO (expandAmaalEvents adhan [item] monthConfigs qatar c)
            = [Some ''2024-04-10T00:00:00.000+03:00''])"
proof -
  have g: "expandAmaalEvents adhan [item] monthConfigs z c =
       [\<lparr>event_id = item_id item,
         title = orElse (label item) (hijri_month item),
         startISO = toISO z (hijriDayToGregorian cfg 1 z),
         endISO = toISO z (hijriDayToGregorian cfg (month_length cfg + 1) z),
         allDay = True,
         description = item_text item,
         event_sections = sections item,
         color = ''#8b5cf6''\<rparr>]" for z
    by (simp add: expand_single [where monthConfigs = monthConfigs and item = item, OF assms(2)]
        expand_month [OF assms(1)] hijri_next)
  have "hijriDayToGregorian cfg d qatar = DT (19793 + d - 1) 0"
    if "startDateISO cfg = ''2024-03-11''" for d
    using that by (simp add: hijri_valid anchor_2024_03_11)
  then show ?thesis
    by (simp add: g iso_2024_03_11 iso_2024_04_10)
qed

theorem month_wide_single_event_witness:
  "[''ramadan'' \<mapsto> ramadan2024] (normMonth (hijri_month (sampleRule\<lparr>rule_kind := MonthAll\<rparr>)))
     = Some ramadan2024
   \<and> expandAmaalEvents sampleAdhan [sampleRule\<lparr>rule_kind := MonthAll\<rparr>]
        [''ramadan'' \<mapsto> ramadan2024] qatar doha =
       [\<lparr>event_id = ''r1'', title = ''Ramadan'',
         startISO = Some ''2024-03-11T00:00:00.000+03:00'',
         endISO = Some ''2024-04-10T00:00:00.000+03:00'',
         allDay = True, description = ''Recite'', event_sections = None,
         color = ''#8b5cf6''\<rparr>]"
proof -
  let ?r = "sampleRule\<lparr>rule_kind := MonthAll\<rparr>"
  have h1: "rule_kind ?r = MonthAll \<or> rule_kind ?r = MonthAnyTime" by simp
  have h2: "[''ramadan'' \<mapsto> ramadan2024] (normMonth (hijri_month ?r)) = Some ramadan2024"
    by (simp add: sampleRule_def normMonth_Ramadan)
  have d: "hijriDayToGregorian ramadan2024 d qatar = DT (19793 + d - 1) 0" for d
    by (rule hijri_valid [where t = 0]) (simp add: ramadan2024_def anchor_2024_03_11)
  have f: "item_id ?r = ''r1''" "orElse (label ?r) (hijri_month ?r) = ''Ramadan''"
    "item_text ?r = ''Recite''" "sections ?r = None" "month_length ramadan2024 = 30"
    by (simp_all add: sampleRule_def orElse_def ramadan2024_def)
  from month_wide_single_event
         [where monthConfigs = "[''ramadan'' \<mapsto> ramadan2024]" and item = ?r, OF h1 h2,
          of sampleAdhan qatar doha]
  have "expandAmaalEvents sampleAdhan [?r] [''ramadan'' \<mapsto> ramadan2024] qatar doha =
       [\<lparr>event_id = item_id ?r,
         title = orElse (label ?r) (hijri_month ?r),
         startISO = toISO qatar (hijriDayToGregorian ramadan2024 1 qatar),
         endISO = toISO qatar (hijriDayToGregorian ramadan2024 (month_length ramadan2024 + 1) qatar),
         allDay = True,
         description = item_text ?r,
         event_sections = sections ?r,
         color = ''#8b5cf6''\<rparr>]"
    by (rule conjunct1)
  then show ?thesis using h2
    by (simp only: f d) (simp add: iso_2024_03_11 iso_2024_04_10)
qed

text \<open>
  C4. The expander returns the generated events with, of several events with one
  (title, start, end), only the earliest: later events with the composite of an earlier one
  are dropped, events that differ in one of the three (the title, in particular) stay, and no
  two events of the result have the same composite.
\<close>

theorem duplicates_dropped_earliest_kept:
  "expandAmaalEvents adhan its monthConfigs tz c
     = keepEarliest (generatedEvents adhan monthConfigs tz c its)
   \<and> distinct (map triple (expandAmaalEvents adhan its monthConfigs tz c))
   \<and> set (map triple (expandAmaalEvents adhan its monthConfigs tz c))
       = set (map triple (generatedEvents adhan monthConfigs tz c its))"
proof -
  have "filterSeen {} (generatedEvents adhan monthConfigs tz c its)
      = keepEarliest (filter (\<lambda>e. eventKey e \<notin> {}) (generatedEvents adhan monthConfigs tz c its))"
    using generated_iso by (rule filterSeen_keepEarliest)
  then have "expandAmaalEvents adhan its monthConfigs tz c
      = keepEarliest (generatedEvents adhan monthConfigs tz c its)"
    by (simp add: expandAmaalEvents_def)
  then show ?thesis
    by (simp only: keepEarliest_distinct keepEarliest_set simp_thms)
qed

theorem duplicates_dropped_earliest_kept_witness:
  "map title (generatedEvents sampleAdhan [''ramadan'' \<mapsto> ramadan2024] qatar doha
       [sampleRule\<lparr>label := ''Qadr'', start_day := Some 15, end_day := Some 15\<rparr>,
        sampleRule\<lparr>label := ''Vigil'', start_day := Some 15, end_day := Some 15\<rparr>,
        sampleRule\<lparr>label := ''Qadr'', start_day := Some 15, end_day := Some 15\<rparr>])
     = [''Qadr'', ''Vigil'', ''Qadr'']
   \<and> map triple (expandAmaalEvents sampleAdhan
       [sampleRule\<lparr>label := ''Qadr'', start_day := Some 15, end_day := Some 15\<rparr>,
        sampleRule\<lparr>label := ''Vigil'', start_day := Some 15, end_day := Some 15\<rparr>,
        sampleRule\<lparr>label := ''Qadr'', start_day := Some 15, end_day := Some 15\<rparr>]
       [''ramadan'' \<mapsto> ramadan2024] qatar doha)
     = [(''Qadr'', Some ''2024-03-24T00:00:00.000+03:00'', Some ''2024-03-24T23:59:59.999+03:00''),
        (''Vigil'', Some ''2024-03-24T00:00:00.000+03:00'', Some ''2024-03-24T23:59:59.999+03:00'')]"
proof -
  let ?q = "sampleRule\<lparr>label := ''Qadr'', start_day := Some 15, end_day := Some 15\<rparr>"
  let ?v = "sampleRule\<lparr>label := ''Vigil'', start_day := Some 15, end_day := Some 15\<rparr>"
  let ?ev = "\<lambda>l. \<lparr>event_id = ''r1_night_15'', title = l,
     startISO = Some ''2024-03-24T00:00:00.000+03:00'',
     endISO = Some ''2024-03-24T23:59:59.999+03:00'',
     allDay = True, description = ''Recite'', event_sections = None :: unit option,
     color = ''#2563eb''\<rparr>"
  have g: "generatedEvents sampleAdhan [''ramadan'' \<mapsto> ramadan2024] qatar doha [?q, ?v, ?q]
      = [?ev ''Qadr'', ?ev ''Vigil'', ?ev ''Qadr'']"
    by code_simp
  from duplicates_dropped_earliest_kept
         [of sampleAdhan "[?q, ?v, ?q]" "[''ramadan'' \<mapsto> ramadan2024]" qatar doha]
  have "expandAmaalEvents sampleAdhan [?q, ?v, ?q] [''ramadan'' \<mapsto> ramadan2024] qatar doha
      = keepEarliest (generatedEvents sampleAdhan [''ramadan'' \<mapsto> ramadan2024] qatar doha
          [?q, ?v, ?q])"
    by (rule conjunct1)
  then have "expandAmaalEvents sampleAdhan [?q, ?v, ?q] [''ramadan'' \<mapsto> ramadan2024] qatar doha
      = [?ev ''Qadr'', ?ev ''Vigil'']"
    by (simp only: g) (simp add: triple_def)
  then show ?thesis by (simp only: g) (simp add: triple_def)
qed

text \<open>
  C5. The claim: a rule whose normalised lunar month has no entry in the map of month
  configurations yields no event. The source reads \<^verbatim>\<open>monthConfigs[normMonth(...)]\<close> on a plain
  object and skips the rule when the result is falsy; under the month names \<^verbatim>\<open>constructor\<close>
  and \<^verbatim>\<open>__proto__\<close> the lookup finds what every object inherits, which is truthy, and with no
  month configured at all a month_all rule of such a month pushes an event, without dates.
\<close>

theorem inherited_month_key_pushes_event:
  "Map.empty (normMonth (hijri_month (sampleRule\<lparr>hijri_month := ''constructor'',
        rule_kind := MonthAll\<rparr>))) = (None :: MonthConfig option)
   \<and> expandAmaalEvents sampleAdhan
        [sampleRule\<lparr>hijri_month := ''constructor'', rule_kind := MonthAll\<rparr>] Map.empty qatar doha
     = [\<lparr>event_id = ''r1'', title = ''constructor'', startISO = None, endISO = None,
          allDay = True, description = ''Recite'', event_sections = None, color = ''#8b5cf6''\<rparr>]
   \<and> expandAmaalEvents sampleAdhan
        [sampleRule\<lparr>hijri_month := ''__proto__'', rule_kind := MonthAll\<rparr>] Map.empty qatar doha
     = [\<lparr>event_id = ''r1'', title = ''__proto__'', startISO = None, endISO = None,
          allDay = True, description = ''Recite'', event_sections = None, color = ''#8b5cf6''\<rparr>]"
  by code_simp

text \<open>
  C6. The claim: a weekday rule yields one timed event for each lunar day of the month whose
  civil date has a weekday of the rule's set, with the start and end instants of the
  day-boundary provider for that civil date and the title "Nth Day"; for THU in a month of 30
  days whose day 1 is a Sunday these are 4 or 5 events, all on Thursdays. The source selects
  the days so (5, 12, 19 and 26, which are Thursdays) and titles the events so, but it hands
  adhan a \<^verbatim>\<open>Date\<close>, the instant of 00:00 of the civil date in the zone of the rule, and adhan
  reads the civil date of a \<^verbatim>\<open>Date\<close> in the zone of the process. In a process at UTC-4, with
  the rule in Asia/Qatar, that is the day before: the four events lie on the Wednesdays
  2024-03-13, 20, 27 and 2024-04-03. In a process in the zone of the rule they lie on the
  Thursdays.
\<close>

theorem weekday_events_on_eve_west_of_zone:
  "map triple (expandAmaalEvents adhanWestOfQatar
       [sampleRule\<lparr>rule_kind := Weekday, weekdays := Some [''THU'']\<rparr>]
       [''ramadan'' \<mapsto> ramadan2024\<lparr>startDateISO := ''2024-03-10''\<rparr>] qatar doha)
     = [(''5th Day'', Some ''2024-03-13T04:30:00.000+03:00'', Some ''2024-03-13T17:45:00.000+03:00''),
        (''12th Day'', Some ''2024-03-20T04:30:00.000+03:00'', Some ''2024-03-20T17:45:00.000+03:00''),
        (''19th Day'', Some ''2024-03-27T04:30:00.000+03:00'', Some ''2024-03-27T17:45:00.000+03:00''),
        (''26th Day'', Some ''2024-04-03T04:30:00.000+03:00'', Some ''2024-04-03T17:45:00.000+03:00'')]
   \<and> map (\<lambda>s. weekday (fromISO s qatar))
        [''2024-03-13'', ''2024-03-20'', ''2024-03-27'', ''2024-04-03'']
     = [Some 3, Some 3, Some 3, Some 3]
   \<and> map (\<lambda>d. weekday (hijriDayToGregorian (ramadan2024\<lparr>startDateISO := ''2024-03-10''\<rparr>) d qatar))
        [1, 5, 12, 19, 26] = [Some 7, Some 4, Some 4, Some 4, Some 4]
   \<and> map triple (expandAmaalEvents sampleAdhan
       [sampleRule\<lparr>rule_kind := Weekday, weekdays := Some [''THU'']\<rparr>]
       [''ramadan'' \<mapsto> ramadan2024\<lparr>startDateISO := ''2024-03-10''\<rparr>] qatar doha)
     = [(''5th Day'', Some ''2024-03-14T04:30:00.000+03:00'', Some ''2024-03-14T17:45:00.000+03:00''),
        (''12th Day'', Some ''2024-03-21T04:30:00.000+03:00'', Some ''2024-03-21T17:45:00.000+03:00''),
        (''19th Day'', Some ''2024-03-28T04:30:00.000+03:00'', Some ''2024-03-28T17:45:00.000+03:00''),
        (''26th Day'', Some ''2024-04-04T04:30:00.000+03:00'', Some ''2024-04-04T17:45:00.000+03:00'')]"
  by code_simp




text \<open>
  C8. For every day number \<open>n \<ge> 1\<close> the generated ordinal is \<open>n\<close> in decimal followed by
  the suffix the specification describes: "th" when \<open>n mod 100\<close> is 11, 12 or 13, otherwise
  "st", "nd", "rd" when \<open>n mod 10\<close> is 1, 2, 3, and "th" in all remaining cases; 1, 2, 3, 11 and
  21 give "1st", "2nd", "3rd", "11th" and "21st".
\<close>

theorem getOrdinal_suffix:
  assumes "1 \<le> n"
  shows "getOrdinal n = show_int n @ ordinalSuffix n
    \<and> getOrdinal 1 = ''1st'' \<and> getOrdinal 2 = ''2nd'' \<and> getOrdinal 3 = ''3rd''
    \<and> getOrdinal 11 = ''11th'' \<and> getOrdinal 21 = ''21st''"
  using getOrdinal_spec [OF assms] getOrdinal_examples by simp

theorem getOrdinal_suffix_witness:
  "(1::int) \<le> 112 \<and> getOrdinal 112 = ''112th'' \<and> ordinalSuffix 112 = ''th''
     \<and> show_int 112 = ''112''"
proof -
  have h: "(1::int) \<le> 112" by simp
  have s: "show_int 112 = ''112''" by code_simp
  have o: "ordinalSuffix 112 = ''th''" by (simp add: ordinalSuffix_def)
  from getOrdinal_suffix [OF h] have "getOrdinal 112 = show_int 112 @ ordinalSuffix 112"
    by (rule conjunct1)
  with s o show ?thesis by simp
qed

text \<open>
  C9, as stated, fails in its reason: a code outside MON .. SUN does not always map to the
  number 0. Under the name of a property every object inherits, such as \<^verbatim>\<open>constructor\<close>,
  \<^verbatim>\<open>map[weekday]\<close> is an object, which \<^verbatim>\<open>?? 0\<close> keeps.
\<close>

theorem weekdayToLuxon_constructor_counterexample:
  "''constructor'' \<notin> {''MON'', ''TUE'', ''WED'', ''THU'', ''FRI'', ''SAT'', ''SUN''}
   \<and> weekdayToLuxon ''constructor'' = JsObject ''constructor''
   \<and> weekdayToLuxon ''constructor'' \<noteq> JsNumber 0"
  by code_simp

text \<open>
  C9, amended. A weekday or weekday_multi rule whose \<^verbatim>\<open>weekdays\<close> is null, empty, or holds only
  codes other than MON .. SUN pushes no event, whatever the month configuration, and the
  expander returns the empty list for it: such a code maps to the number 0 or, when it names a
  property every object inherits, to the inherited object; the weekday of a date is one of the
  numbers 1 .. 7, which is neither.
\<close>

theorem weekday_rule_without_codes:
  assumes "rule_kind item = Weekday \<or> rule_kind item = WeekdayMulti"
    and "weekdays item = None \<or> (\<exists>ws. weekdays item = Some ws \<and>
           set ws \<inter> {''MON'', ''TUE'', ''WED'', ''THU'', ''FRI'', ''SAT'', ''SUN''} = {})"
  shows "expandConfigured adhan tz c cfg item = []
     \<and> expandAmaalEvents adhan [item] monthConfigs tz c = []
     \<and> (\<forall>s. s \<notin> {''MON'', ''TUE'', ''WED'', ''THU'', ''FRI'', ''SAT'', ''SUN''}
            \<longrightarrow> weekdayToLuxon s = JsNumber 0 \<or> weekdayToLuxon s = JsObject s)
     \<and> (\<forall>dt w. weekday dt = Some w \<longrightarrow>
            1 \<le> w \<and> w \<le> 7 \<and> JsNumber w \<noteq> JsNumber 0 \<and> (\<forall>k. JsNumber w \<noteq> JsObject k))"
proof -
  have u: "weekdayToLuxon s = JsNumber 0 \<or> weekdayToLuxon s = JsObject s"
    if "s \<notin> {''MON'', ''TUE'', ''WED'', ''THU'', ''FRI'', ''SAT'', ''SUN''}" for s
    using weekdayToLuxon_unknown [OF that] by simp
  have t: "weekdayTarget item \<subseteq> insert (JsNumber 0) (range JsObject)"
  proof (cases "weekdays item")
    case None
    then show ?thesis by (simp add: weekdayTarget_def)
  next
    case (Some ws)
    with assms(2) have "\<forall>s \<in> set ws. weekdayToLuxon s = JsNumber 0 \<or> weekdayToLuxon s = JsObject s"
      by (auto intro!: u)
    with Some show ?thesis by (auto simp: weekdayTarget_def)
  qed
  have e: "expandConfigured adhan tz c cfg' item = []" for cfg'
    using assms(1) t by (rule no_weekday_no_events)
  have p: "expandWithoutLength tz item = []"
    using assms(1) by (auto simp: expandWithoutLength_def)
  have "expandItem adhan monthConfigs tz c item = []"
  proof (cases "lookupMonth monthConfigs (normMonth (hijri_month item))")
    case None
    then show ?thesis by (simp add: expandItem_def)
  next
    case (Some found)
    then show ?thesis by (cases found) (simp_all add: expandItem_def e p)
  qed
  then have a: "expandAmaalEvents adhan [item] monthConfigs tz c = []"
    by (simp add: expandAmaalEvents_def generatedEvents_def)
  have w: "1 \<le> w \<and> w \<le> 7 \<and> JsNumber w \<noteq> JsNumber 0 \<and> (\<forall>k. JsNumber w \<noteq> JsObject k)"
    if "weekday dt = Some w" for dt w
    using weekday_range [OF that] by simp
  from e a u w show ?thesis by blast
qed

theorem weekday_rule_without_codes_witness:
  "(rule_kind (sampleRule\<lparr>rule_kind := Weekday, weekdays := Some [''thu'', ''constructor'']\<rparr>)
      = Weekday
    \<or> rule_kind (sampleRule\<lparr>rule_kind := Weekday, weekdays := Some [''thu'', ''constructor'']\<rparr>)
      = WeekdayMulti)
   \<and> weekdayTarget (sampleRule\<lparr>rule_kind := Weekday, weekdays := Some [''thu'', ''constructor'']\<rparr>)
       = {JsNumber 0, JsObject ''constructor''}
   \<and> expandConfigured sampleAdhan qatar doha ramadan2024
        (sampleRule\<lparr>rule_kind := Weekday, weekdays := Some [''thu'', ''constructor'']\<rparr>) = []
   \<and> expandAmaalEvents sampleAdhan
        [sampleRule\<lparr>rule_kind := Weekday, weekdays := Some [''thu'', ''constructor'']\<rparr>]
        [''ramadan'' \<mapsto> ramadan2024] qatar doha = []"
proof -
  let ?r = "sampleRule\<lparr>rule_kind := Weekday, weekdays := Some [''thu'', ''constructor'']\<rparr>"
  have h1: "rule_kind ?r = Weekday \<or> rule_kind ?r = WeekdayMulti" by simp
  have h2: "weekdays ?r = None \<or> (\<exists>ws. weekdays ?r = Some ws \<and>
           set ws \<inter> {''MON'', ''TUE'', ''WED'', ''THU'', ''FRI'', ''SAT'', ''SUN''} = {})"
    by simp
  have t: "weekdayTarget ?r = {JsNumber 0, JsObject ''constructor''}"
    by (simp add: weekdayTarget_def weekdayToLuxon_def objectPrototypeKeys_def)
  from weekday_rule_without_codes [OF h1 h2] show ?thesis using h1 t by blast
qed

text \<open>
  C10. The claim: a night-period rule on the range path whose resolved start day is 1 yields
  an event of the civil day before the anchor date of the month, outside the span the month
  covers. The source does so when the start day is 1 (the event of 2024-03-10 for the anchor
  2024-03-11), but for the start day 0, which resolves to 1 as well, it pushes no event (the
  falsy start day of C1).
\<close>

theorem first_night_start_zero_no_event:
  "period (sampleRule\<lparr>start_day := Some 0, end_day := None\<rparr>) = Night
   \<and> resolvedStart ramadan2024 0 = 1
   \<and> expandAmaalEvents sampleAdhan [sampleRule\<lparr>start_day := Some 0, end_day := None\<rparr>]
        [''ramadan'' \<mapsto> ramadan2024] qatar doha = []
   \<and> map triple (expandAmaalEvents sampleAdhan [sampleRule\<lparr>start_day := Some 1, end_day := Some 1\<rparr>]
        [''ramadan'' \<mapsto> ramadan2024] qatar doha)
     = [(''1st Night'', Some ''2024-03-10T00:00:00.000+03:00'',
         Some ''2024-03-10T23:59:59.999+03:00'')]"
  by code_simp


end
